theory Spec2Isabelle
  imports Main "HOL-Library.Word"
begin

section \<open>Data model of package collector\<close>

text \<open>
  Go's \<open>int64\<close> and \<open>uint64\<close> are 64-bit words and \<open>uint32\<close> is a 32-bit word;
  arithmetic on them wraps. A \<open>float64\<close> is only ever copied by this package, never
  computed with, so it is carried as its 64-bit IEEE-754 pattern: the zero value
  \<open>0.0\<close> is the pattern \<open>0\<close>, and a copy preserves the pattern.
\<close>

type_synonym int64 = "64 word"
type_synonym uint64 = "64 word"
type_synonym uint32 = "32 word"
type_synonym float64 = "64 word"

text \<open>
  The fields of \<open>runtime.MemStats\<close> that the collector reads. \<open>PauseNs\<close> is the
  fixed array \<open>[256]uint64\<close>, given by its contents at the indices \<open>0..255\<close>.
\<close>

record MemStats =
  Alloc :: uint64
  TotalAlloc :: uint64
  Sys :: uint64
  Lookups :: uint64
  Mallocs :: uint64
  Frees :: uint64
  HeapAlloc :: uint64
  HeapSys :: uint64
  HeapIdle :: uint64
  HeapInuse :: uint64
  HeapReleased :: uint64
  HeapObjects :: uint64
  StackInuse :: uint64
  StackSys :: uint64
  MSpanInuse :: uint64
  MSpanSys :: uint64
  MCacheInuse :: uint64
  MCacheSys :: uint64
  OtherSys :: uint64
  GCSys :: uint64
  NextGC :: uint64
  LastGC :: uint64
  PauseTotalNs :: uint64
  PauseNs :: "nat \<Rightarrow> uint64"
  NumGC :: uint32
  GCCPUFraction :: float64

text \<open>\<open>type cpuStats struct\<close> (collector.go, lines 154-157).\<close>

record cpuStats =
  NumGoroutine :: int64
  NumCgoCall :: int64

text \<open>
  \<open>type Fields struct\<close> (collector.go, lines 160-199). It is declared last, so an
  unqualified field name below is the one of \<open>Fields\<close>; the fields of the two
  records above are written qualified (\<open>MemStats.Alloc\<close>, \<open>cpuStats.NumGoroutine\<close>).
\<close>

record Fields =
  NumGoroutine :: int64
  NumCgoCall :: int64
  Alloc :: int64
  TotalAlloc :: int64
  Sys :: int64
  Lookups :: int64
  Mallocs :: int64
  Frees :: int64
  HeapAlloc :: int64
  HeapSys :: int64
  HeapIdle :: int64
  HeapInuse :: int64
  HeapReleased :: int64
  HeapObjects :: int64
  StackInuse :: int64
  StackSys :: int64
  MSpanInuse :: int64
  MSpanSys :: int64
  MCacheInuse :: int64
  MCacheSys :: int64
  OtherSys :: int64
  GCSys :: int64
  NextGC :: int64
  LastGC :: int64
  PauseTotalNs :: int64
  PauseNs :: int64
  NumGC :: int64
  GCCPUFraction :: float64

text \<open>The zero value \<open>Fields{}\<close>.\<close>

definition Fields_zero :: Fields where
  "Fields_zero =
     \<lparr> NumGoroutine = 0, NumCgoCall = 0,
       Alloc = 0, TotalAlloc = 0, Sys = 0, Lookups = 0, Mallocs = 0, Frees = 0,
       HeapAlloc = 0, HeapSys = 0, HeapIdle = 0, HeapInuse = 0, HeapReleased = 0,
       HeapObjects = 0,
       StackInuse = 0, StackSys = 0, MSpanInuse = 0, MSpanSys = 0, MCacheInuse = 0,
       MCacheSys = 0, OtherSys = 0,
       GCSys = 0, NextGC = 0, LastGC = 0, PauseTotalNs = 0, PauseNs = 0, NumGC = 0,
       GCCPUFraction = 0 \<rparr>"

text \<open>
  \<open>type FieldsFunc func(Fields)\<close>: the callback receives the snapshot by value and
  returns nothing; whatever it does, it does to the world outside the collector,
  of type \<open>'w\<close>.
\<close>

type_synonym 'w FieldsFunc = "Fields \<Rightarrow> 'w \<Rightarrow> 'w"

text \<open>
  \<open>type Collector struct\<close> (lines 14-38). \<open>PauseDur\<close> is a \<open>time.Duration\<close>, an
  \<open>int64\<close> count of nanoseconds. \<open>Done\<close> is a receive-only channel, \<open>None\<close> when
  it is nil. The snapshot field \<open>fields\<close> is written \<open>fields'\<close>, since the record
  package keeps the name \<open>fields\<close> for itself. The mutex is not part of the
  sequential state.
\<close>

type_synonym chan = nat

record 'w Collector =
  PauseDur :: int64
  EnableCPU :: bool
  EnableMem :: bool
  EnableGC :: bool
  Done :: "chan option"
  fieldsFunc :: "'w FieldsFunc"
  fields' :: Fields

text \<open>
  What one collection cycle reads from package \<open>runtime\<close>: the results of
  \<open>runtime.NumGoroutine()\<close>, \<open>runtime.NumCgoCall()\<close> and \<open>runtime.ReadMemStats\<close>.
\<close>

record runtime =
  runtime_NumGoroutine :: int64
  runtime_NumCgoCall :: int64
  runtime_ReadMemStats :: MemStats

section \<open>Construction\<close>

definition Second :: int64 where
  "Second = 1000000000"

text \<open>\<open>func New(fieldsFunc FieldsFunc) *Collector\<close> (lines 43-55); a nil argument is \<open>None\<close>.\<close>

definition New :: "'w FieldsFunc option \<Rightarrow> 'w Collector" where
  "New fieldsFunc' =
     (let fieldsFunc'' = (case fieldsFunc' of None \<Rightarrow> (\<lambda>_ w. w) | Some f \<Rightarrow> f)
      in \<lparr> PauseDur = 10 * Second,
           EnableCPU = True,
           EnableMem = True,
           EnableGC = True,
           Done = None,
           fieldsFunc = fieldsFunc'',
           fields' = Fields_zero \<rparr>)"

section \<open>One collection cycle\<close>

text \<open>\<open>outputCPUStats\<close> (lines 111-114).\<close>

definition outputCPUStats :: "'w Collector \<Rightarrow> cpuStats \<Rightarrow> 'w Collector" where
  "outputCPUStats c s =
     c\<lparr>fields' := (fields' c)
        \<lparr> NumGoroutine := cpuStats.NumGoroutine s,
          NumCgoCall := cpuStats.NumCgoCall s \<rparr>\<rparr>"

text \<open>\<open>outputMemStats\<close> (lines 116-142); \<open>int64(x)\<close> of a \<open>uint64\<close> keeps the 64 bits.\<close>

definition outputMemStats :: "'w Collector \<Rightarrow> MemStats \<Rightarrow> 'w Collector" where
  "outputMemStats c m =
     c\<lparr>fields' := (fields' c)
        \<lparr> Alloc := MemStats.Alloc m,
          TotalAlloc := MemStats.TotalAlloc m,
          Sys := MemStats.Sys m,
          Lookups := MemStats.Lookups m,
          Mallocs := MemStats.Mallocs m,
          Frees := MemStats.Frees m,
          HeapAlloc := MemStats.HeapAlloc m,
          HeapSys := MemStats.HeapSys m,
          HeapIdle := MemStats.HeapIdle m,
          HeapInuse := MemStats.HeapInuse m,
          HeapReleased := MemStats.HeapReleased m,
          HeapObjects := MemStats.HeapObjects m,
          StackInuse := MemStats.StackInuse m,
          StackSys := MemStats.StackSys m,
          MSpanInuse := MemStats.MSpanInuse m,
          MSpanSys := MemStats.MSpanSys m,
          MCacheInuse := MemStats.MCacheInuse m,
          MCacheSys := MemStats.MCacheSys m,
          OtherSys := MemStats.OtherSys m \<rparr>\<rparr>"

text \<open>
  The index \<open>(m.NumGC+255)%256\<close> of line 149, computed in \<open>uint32\<close> as Go does
  (the addition wraps at \<open>2^32\<close>).
\<close>

definition pauseIndex :: "uint32 \<Rightarrow> nat" where
  "pauseIndex numGC = unat ((numGC + 255) mod 256)"

text \<open>\<open>outputGCStats\<close> (lines 144-152); \<open>int64(m.NumGC)\<close> zero-extends the \<open>uint32\<close>.\<close>

definition outputGCStats :: "'w Collector \<Rightarrow> MemStats \<Rightarrow> 'w Collector" where
  "outputGCStats c m =
     c\<lparr>fields' := (fields' c)
        \<lparr> GCSys := MemStats.GCSys m,
          NextGC := MemStats.NextGC m,
          LastGC := MemStats.LastGC m,
          PauseTotalNs := MemStats.PauseTotalNs m,
          PauseNs := MemStats.PauseNs m (pauseIndex (MemStats.NumGC m)),
          NumGC := ucast (MemStats.NumGC m),
          GCCPUFraction := MemStats.GCCPUFraction m \<rparr>\<rparr>"

text \<open>
  \<open>outputStats\<close> (lines 88-109): refresh the enabled categories, then call the
  consumer with the snapshot. The result is the collector and the world after
  the call.
\<close>

definition outputStats :: "'w Collector \<Rightarrow> runtime \<Rightarrow> 'w \<Rightarrow> 'w Collector \<times> 'w" where
  "outputStats c rt w =
     (let c1 = (if EnableCPU c
                then (let cStats = \<lparr> cpuStats.NumGoroutine = runtime_NumGoroutine rt,
                                      cpuStats.NumCgoCall = runtime_NumCgoCall rt \<rparr>
                      in outputCPUStats c cStats)
                else c);
          c2 = (if EnableMem c1
                then (let m = runtime_ReadMemStats rt;
                          c' = outputMemStats c1 m
                      in if EnableGC c' then outputGCStats c' m else c')
                else c1)
      in (c2, fieldsFunc c2 (fields' c2) w))"

section \<open>The two access modes\<close>

text \<open>
  \<open>OneOff\<close> (lines 77-86) holds \<open>c.mu\<close> twice. The first time is the cycle of
  line 78, inside \<open>outputStats\<close>. The second time is lines 80-85: the value
  returned is the snapshot as it is then (the return value is evaluated before the
  deferred function runs), and the deferred function stores \<open>Fields{}\<close> before it
  unlocks.
\<close>

definition OneOff_locked :: "'w Collector \<Rightarrow> Fields \<times> 'w Collector" where
  "OneOff_locked c = (fields' c, c\<lparr>fields' := Fields_zero\<rparr>)"

text \<open>
  Between the two the mutex is free, and other goroutines may hold it first, each
  for one of the two critical sections of the package: a cycle (a tick of \<open>Run\<close>,
  or line 78 of another \<open>OneOff\<close>), or lines 80-85 of another \<open>OneOff\<close>.
\<close>

datatype critical_section = Cycle runtime | ReadReset

fun others :: "'w Collector \<Rightarrow> critical_section list \<Rightarrow> 'w \<Rightarrow> 'w Collector \<times> 'w" where
  "others c [] w = (c, w)"
| "others c (Cycle rt # ss) w =
     others (fst (outputStats c rt w)) ss (snd (outputStats c rt w))"
| "others c (ReadReset # ss) w = others (snd (OneOff_locked c)) ss w"

text \<open>
  A call of \<open>OneOff\<close>, with the critical sections \<open>ss\<close> of other goroutines that
  come between its own two; \<open>ss = []\<close> is the call with no other goroutine in between.
  The result is the value returned, the collector and the world.
\<close>

definition OneOff ::
  "'w Collector \<Rightarrow> runtime \<Rightarrow> critical_section list \<Rightarrow> 'w \<Rightarrow> Fields \<times> 'w Collector \<times> 'w" where
  "OneOff c rt ss w =
     (case outputStats c rt w of
        (c1, w1) \<Rightarrow>
          (case others c1 ss w1 of
             (c2, w2) \<Rightarrow>
               (case OneOff_locked c2 of
                  (result, c3) \<Rightarrow> (result, c3, w2))))"

text \<open>
  What the \<open>select\<close> of \<open>Run\<close> receives, one entry per iteration of the loop:
  \<open>Done\<close> has been closed, or the ticker has fired; a tick carries what the cycle
  it starts reads from the runtime.
\<close>

datatype select_event = DoneClosed | TickFired runtime

text \<open>
  How far \<open>Run\<close> got on a schedule: it returned, it panicked, or the schedule ended
  with the loop still blocked in \<open>select\<close>.
\<close>

datatype 'a run_result = Returned 'a | Panicked 'a | Waiting 'a

fun run_state :: "'a run_result \<Rightarrow> 'a" where
  "run_state (Returned s) = s"
| "run_state (Panicked s) = s"
| "run_state (Waiting s) = s"

text \<open>
  The \<open>for { select { ... } }\<close> of lines 65-72. A receive from a nil channel never
  proceeds, so with \<open>Done\<close> nil the first case is never taken.
\<close>

fun run_loop ::
  "'w Collector \<Rightarrow> select_event list \<Rightarrow> 'w \<Rightarrow> ('w Collector \<times> 'w) run_result" where
  "run_loop c [] w = Waiting (c, w)"
| "run_loop c (DoneClosed # es) w =
     (if Done c = None then run_loop c es w else Returned (c, w))"
| "run_loop c (TickFired rt # es) w =
     run_loop (fst (outputStats c rt w)) es (snd (outputStats c rt w))"

text \<open>
  \<open>Run\<close> (lines 60-73): a first cycle, then \<open>time.NewTicker(c.PauseDur)\<close>, which
  panics unless the duration is positive, then the loop.
\<close>

definition Run ::
  "'w Collector \<Rightarrow> runtime \<Rightarrow> select_event list \<Rightarrow> 'w \<Rightarrow> ('w Collector \<times> 'w) run_result" where
  "Run c rt es w =
     (case outputStats c rt w of
        (c1, w1) \<Rightarrow>
          if sint (PauseDur c1) \<le> 0 then Panicked (c1, w1) else run_loop c1 es w1)"

section \<open>The flat key-value form\<close>

text \<open>A value of the \<open>map[string]interface{}\<close>: an \<open>int64\<close> or a \<open>float64\<close>.\<close>

datatype val = Int64 int64 | Float64 float64

text \<open>\<open>ToMap\<close> (lines 201-236).\<close>

definition ToMap :: "Fields \<Rightarrow> (string \<rightharpoonup> val)" where
  "ToMap f = map_of
     [ (''cpu.goroutines'', Int64 (NumGoroutine f)),
       (''cpu.cgo_calls'', Int64 (NumCgoCall f)),
       (''mem.alloc'', Int64 (Alloc f)),
       (''mem.total'', Int64 (TotalAlloc f)),
       (''mem.sys'', Int64 (Sys f)),
       (''mem.lookups'', Int64 (Lookups f)),
       (''mem.malloc'', Int64 (Mallocs f)),
       (''mem.frees'', Int64 (Frees f)),
       (''mem.heap.alloc'', Int64 (HeapAlloc f)),
       (''mem.heap.sys'', Int64 (HeapSys f)),
       (''mem.heap.idle'', Int64 (HeapIdle f)),
       (''mem.heap.inuse'', Int64 (HeapInuse f)),
       (''mem.heap.released'', Int64 (HeapReleased f)),
       (''mem.heap.objects'', Int64 (HeapObjects f)),
       (''mem.stack.inuse'', Int64 (StackInuse f)),
       (''mem.stack.sys'', Int64 (StackSys f)),
       (''mem.stack.mspan_inuse'', Int64 (MSpanInuse f)),
       (''mem.stack.mspan_sys'', Int64 (MSpanSys f)),
       (''mem.stack.mcache_inuse'', Int64 (MCacheInuse f)),
       (''mem.stack.mcache_sys'', Int64 (MCacheSys f)),
       (''mem.othersys'', Int64 (OtherSys f)),
       (''mem.gc.sys'', Int64 (GCSys f)),
       (''mem.gc.next'', Int64 (NextGC f)),
       (''mem.gc.last'', Int64 (LastGC f)),
       (''mem.gc.pause_total'', Int64 (PauseTotalNs f)),
       (''mem.gc.pause'', Int64 (PauseNs f)),
       (''mem.gc.count'', Int64 (NumGC f)),
       (''mem.gc.cpu_fraction'', Float64 (GCCPUFraction f)) ]"

text \<open>
  The declaration of \<open>Fields\<close> (lines 160-199) read as a table: for each field, in
  the order of the declaration, the name in its \<open>json\<close> tag and the field's value
  at its declared type.
\<close>

definition Fields_tags :: "(string \<times> (Fields \<Rightarrow> val)) list" where
  "Fields_tags =
     [ (''cpu.goroutines'', \<lambda>f. Int64 (NumGoroutine f)),
       (''cpu.cgo_calls'', \<lambda>f. Int64 (NumCgoCall f)),
       (''mem.alloc'', \<lambda>f. Int64 (Alloc f)),
       (''mem.total'', \<lambda>f. Int64 (TotalAlloc f)),
       (''mem.sys'', \<lambda>f. Int64 (Sys f)),
       (''mem.lookups'', \<lambda>f. Int64 (Lookups f)),
       (''mem.malloc'', \<lambda>f. Int64 (Mallocs f)),
       (''mem.frees'', \<lambda>f. Int64 (Frees f)),
       (''mem.heap.alloc'', \<lambda>f. Int64 (HeapAlloc f)),
       (''mem.heap.sys'', \<lambda>f. Int64 (HeapSys f)),
       (''mem.heap.idle'', \<lambda>f. Int64 (HeapIdle f)),
       (''mem.heap.inuse'', \<lambda>f. Int64 (HeapInuse f)),
       (''mem.heap.released'', \<lambda>f. Int64 (HeapReleased f)),
       (''mem.heap.objects'', \<lambda>f. Int64 (HeapObjects f)),
       (''mem.stack.inuse'', \<lambda>f. Int64 (StackInuse f)),
       (''mem.stack.sys'', \<lambda>f. Int64 (StackSys f)),
       (''mem.stack.mspan_inuse'', \<lambda>f. Int64 (MSpanInuse f)),
       (''mem.stack.mspan_sys'', \<lambda>f. Int64 (MSpanSys f)),
       (''mem.stack.mcache_inuse'', \<lambda>f. Int64 (MCacheInuse f)),
       (''mem.stack.mcache_sys'', \<lambda>f. Int64 (MCacheSys f)),
       (''mem.othersys'', \<lambda>f. Int64 (OtherSys f)),
       (''mem.gc.sys'', \<lambda>f. Int64 (GCSys f)),
       (''mem.gc.next'', \<lambda>f. Int64 (NextGC f)),
       (''mem.gc.last'', \<lambda>f. Int64 (LastGC f)),
       (''mem.gc.pause_total'', \<lambda>f. Int64 (PauseTotalNs f)),
       (''mem.gc.pause'', \<lambda>f. Int64 (PauseNs f)),
       (''mem.gc.count'', \<lambda>f. Int64 (NumGC f)),
       (''mem.gc.cpu_fraction'', \<lambda>f. Float64 (GCCPUFraction f)) ]"

section \<open>Vocabulary of the properties\<close>

text \<open>
  The fields of each category: those written by \<open>outputCPUStats\<close>, by
  \<open>outputMemStats\<close> and by \<open>outputGCStats\<close>, in the order they are written.
\<close>

definition cpuFields :: "Fields \<Rightarrow> int64 list" where
  "cpuFields f = [NumGoroutine f, NumCgoCall f]"

definition memFields :: "Fields \<Rightarrow> int64 list" where
  "memFields f =
     [ Alloc f, TotalAlloc f, Sys f, Lookups f, Mallocs f, Frees f,
       HeapAlloc f, HeapSys f, HeapIdle f, HeapInuse f, HeapReleased f, HeapObjects f,
       StackInuse f, StackSys f, MSpanInuse f, MSpanSys f, MCacheInuse f, MCacheSys f,
       OtherSys f ]"

definition gcFields :: "Fields \<Rightarrow> int64 list" where
  "gcFields f =
     [ GCSys f, NextGC f, LastGC f, PauseTotalNs f, PauseNs f, NumGC f, GCCPUFraction f ]"

text \<open>The values that a cycle stores for each category when it is enabled.\<close>

definition cpuRead :: "runtime \<Rightarrow> int64 list" where
  "cpuRead rt = [runtime_NumGoroutine rt, runtime_NumCgoCall rt]"

definition memRead :: "MemStats \<Rightarrow> int64 list" where
  "memRead m =
     [ MemStats.Alloc m, MemStats.TotalAlloc m, MemStats.Sys m, MemStats.Lookups m,
       MemStats.Mallocs m, MemStats.Frees m,
       MemStats.HeapAlloc m, MemStats.HeapSys m, MemStats.HeapIdle m, MemStats.HeapInuse m,
       MemStats.HeapReleased m, MemStats.HeapObjects m,
       MemStats.StackInuse m, MemStats.StackSys m, MemStats.MSpanInuse m,
       MemStats.MSpanSys m, MemStats.MCacheInuse m, MemStats.MCacheSys m,
       MemStats.OtherSys m ]"

definition gcRead :: "MemStats \<Rightarrow> int64 list" where
  "gcRead m =
     [ MemStats.GCSys m, MemStats.NextGC m, MemStats.LastGC m, MemStats.PauseTotalNs m,
       MemStats.PauseNs m (pauseIndex (MemStats.NumGC m)), ucast (MemStats.NumGC m),
       MemStats.GCCPUFraction m ]"

text \<open>
  The ticks that the loop of \<open>Run\<close> receives on a schedule before it stops: all of
  them when \<open>Done\<close> is nil, those before the first \<open>DoneClosed\<close> otherwise.
\<close>

fun ticks_received :: "'w Collector \<Rightarrow> select_event list \<Rightarrow> runtime list" where
  "ticks_received c [] = []"
| "ticks_received c (DoneClosed # es) = (if Done c = None then ticks_received c es else [])"
| "ticks_received c (TickFired rt # es) = rt # ticks_received c es"

text \<open>A sequence of collection cycles, one for each entry of the list.\<close>

fun cycles :: "'w Collector \<Rightarrow> runtime list \<Rightarrow> 'w \<Rightarrow> 'w Collector \<times> 'w" where
  "cycles c [] w = (c, w)"
| "cycles c (rt # rts) w = cycles (fst (outputStats c rt w)) rts (snd (outputStats c rt w))"

text \<open>
  Modelled from the spec: the Go runtime's side of the pause history, which is not
  part of this repository: "a fixed 256-slot recent-pause-history buffer and a
  monotonically increasing GC-cycle counter". On completing a collection the
  runtime stores the pause in slot \<open>NumGC mod 256\<close>, adds it to the total and then
  increments \<open>NumGC\<close>.
\<close>

definition runtime_gcDone :: "MemStats \<Rightarrow> uint64 \<Rightarrow> MemStats" where
  "runtime_gcDone m pause =
     m\<lparr> MemStats.PauseTotalNs := MemStats.PauseTotalNs m + pause,
        MemStats.PauseNs := (MemStats.PauseNs m)(unat (MemStats.NumGC m mod 256) := pause),
        MemStats.NumGC := MemStats.NumGC m + 1 \<rparr>"

text \<open>Concrete inputs: a runtime that has not collected yet, with five goroutines.\<close>

definition memStats0 :: MemStats where
  "memStats0 =
     \<lparr> MemStats.Alloc = 1, MemStats.TotalAlloc = 2, MemStats.Sys = 3, MemStats.Lookups = 4,
       MemStats.Mallocs = 5, MemStats.Frees = 6,
       MemStats.HeapAlloc = 7, MemStats.HeapSys = 8, MemStats.HeapIdle = 9,
       MemStats.HeapInuse = 10, MemStats.HeapReleased = 11, MemStats.HeapObjects = 12,
       MemStats.StackInuse = 13, MemStats.StackSys = 14, MemStats.MSpanInuse = 15,
       MemStats.MSpanSys = 16, MemStats.MCacheInuse = 17, MemStats.MCacheSys = 18,
       MemStats.OtherSys = 19,
       MemStats.GCSys = 20, MemStats.NextGC = 21, MemStats.LastGC = 0,
       MemStats.PauseTotalNs = 0, MemStats.PauseNs = (\<lambda>_. 0), MemStats.NumGC = 0,
       MemStats.GCCPUFraction = 0 \<rparr>"

definition runtime0 :: runtime where
  "runtime0 =
     \<lparr> runtime_NumGoroutine = 5, runtime_NumCgoCall = 1, runtime_ReadMemStats = memStats0 \<rparr>"

text \<open>The same runtime later: nine goroutines, and one collection done, with a pause of 700 ns.\<close>

definition runtime1 :: runtime where
  "runtime1 =
     \<lparr> runtime_NumGoroutine = 9, runtime_NumCgoCall = 2,
       runtime_ReadMemStats = runtime_gcDone memStats0 700 \<rparr>"

text \<open>
  A collector that was built by \<open>New\<close>, given a \<open>Done\<close> channel, and whose \<open>Run\<close>
  has made its first cycle on \<open>runtime0\<close> and returned when \<open>Done\<close> was closed.
\<close>

definition ranOnce :: "unit Collector" where
  "ranOnce = fst (run_state (Run ((New None)\<lparr>Done := Some 0\<rparr>) runtime0 [DoneClosed] ()))"

text \<open>A consumer that keeps every snapshot it is handed, in the order of the calls.\<close>

definition keepAll :: "Fields list FieldsFunc" where
  "keepAll f log = log @ [f]"

section \<open>Properties\<close>

subsection \<open>What a cycle does to the collector\<close>

lemma outputStats_config:
  "EnableCPU (fst (outputStats c rt w)) = EnableCPU c"
  "EnableMem (fst (outputStats c rt w)) = EnableMem c"
  "EnableGC (fst (outputStats c rt w)) = EnableGC c"
  "Done (fst (outputStats c rt w)) = Done c"
  "PauseDur (fst (outputStats c rt w)) = PauseDur c"
  "fieldsFunc (fst (outputStats c rt w)) = fieldsFunc c"
  by (simp_all add: outputStats_def outputCPUStats_def outputMemStats_def outputGCStats_def Let_def)

lemma outputStats_cpu:
  "cpuFields (fields' (fst (outputStats c rt w))) =
     (if EnableCPU c then cpuRead rt else cpuFields (fields' c))"
  by (simp add: outputStats_def outputCPUStats_def outputMemStats_def outputGCStats_def
      Let_def cpuFields_def cpuRead_def)

lemma outputStats_mem:
  "memFields (fields' (fst (outputStats c rt w))) =
     (if EnableMem c then memRead (runtime_ReadMemStats rt) else memFields (fields' c))"
  by (simp add: outputStats_def outputCPUStats_def outputMemStats_def outputGCStats_def
      Let_def memFields_def memRead_def)

lemma outputStats_gc:
  "gcFields (fields' (fst (outputStats c rt w))) =
     (if EnableMem c \<and> EnableGC c then gcRead (runtime_ReadMemStats rt)
      else gcFields (fields' c))"
  by (simp add: outputStats_def outputCPUStats_def outputMemStats_def outputGCStats_def
      Let_def gcFields_def gcRead_def)

lemma outputStats_snd:
  "snd (outputStats c rt w) = fieldsFunc c (fields' (fst (outputStats c rt w))) w"
  by (simp add: outputStats_def outputCPUStats_def outputMemStats_def outputGCStats_def Let_def)

text \<open>The three categories cover the record: a snapshot is determined by them.\<close>

lemma Fields_eqI:
  fixes f g :: Fields
  assumes "cpuFields f = cpuFields g" "memFields f = memFields g" "gcFields f = gcFields g"
  shows "f = g"
  using assms by (intro Fields.equality) (simp_all add: cpuFields_def memFields_def gcFields_def)

text \<open>The loop of \<open>Run\<close> leaves the flags alone, and with them the disabled categories.\<close>

lemma run_loop_config:
  "EnableCPU (fst (run_state (run_loop c es w))) = EnableCPU c
   \<and> EnableMem (fst (run_state (run_loop c es w))) = EnableMem c
   \<and> EnableGC (fst (run_state (run_loop c es w))) = EnableGC c"
  by (induction c es w rule: run_loop.induct) (simp_all add: outputStats_config)

lemma run_loop_cpu:
  "\<not> EnableCPU c \<Longrightarrow> cpuFields (fields' (fst (run_state (run_loop c es w)))) = cpuFields (fields' c)"
  by (induction c es w rule: run_loop.induct) (simp_all add: outputStats_config outputStats_cpu)

lemma run_loop_mem:
  "\<not> EnableMem c \<Longrightarrow> memFields (fields' (fst (run_state (run_loop c es w)))) = memFields (fields' c)"
  by (induction c es w rule: run_loop.induct) (simp_all add: outputStats_config outputStats_mem)

lemma run_loop_gc:
  "\<not> (EnableMem c \<and> EnableGC c) \<Longrightarrow>
     gcFields (fields' (fst (run_state (run_loop c es w)))) = gcFields (fields' c)"
  by (induction c es w rule: run_loop.induct) (simp_all add: outputStats_config outputStats_gc)

lemma Run_state:
  "run_state (Run c rt es w) =
     (if sint (PauseDur c) \<le> 0 then outputStats c rt w
      else run_state (run_loop (fst (outputStats c rt w)) es (snd (outputStats c rt w))))"
  by (simp add: Run_def case_prod_beta outputStats_config)

text \<open>Reading the concrete runtimes.\<close>

lemma runtime_simps:
  "runtime_NumGoroutine runtime0 = 5" "runtime_NumCgoCall runtime0 = 1"
  "runtime_NumGoroutine runtime1 = 9" "runtime_NumCgoCall runtime1 = 2"
  by (simp_all add: runtime0_def runtime1_def)

text \<open>\<open>OneOff\<close> and the flags; the concrete collector \<open>ranOnce\<close>.\<close>

lemma others_config:
  "EnableCPU (fst (others c ss w)) = EnableCPU c"
  "EnableMem (fst (others c ss w)) = EnableMem c"
  "EnableGC (fst (others c ss w)) = EnableGC c"
  by (induction c ss w rule: others.induct) (simp_all add: outputStats_config OneOff_locked_def)

lemma others_cpu_zero:
  "\<not> EnableCPU c \<Longrightarrow> cpuFields (fields' c) = cpuFields Fields_zero \<Longrightarrow>
     cpuFields (fields' (fst (others c ss w))) = cpuFields Fields_zero"
  by (induction c ss w rule: others.induct)
     (simp_all add: outputStats_config outputStats_cpu OneOff_locked_def)

lemma others_mem_zero:
  "\<not> EnableMem c \<Longrightarrow> memFields (fields' c) = memFields Fields_zero \<Longrightarrow>
     memFields (fields' (fst (others c ss w))) = memFields Fields_zero"
  by (induction c ss w rule: others.induct)
     (simp_all add: outputStats_config outputStats_mem OneOff_locked_def)

lemma others_gc_zero:
  "\<not> (EnableMem c \<and> EnableGC c) \<Longrightarrow> gcFields (fields' c) = gcFields Fields_zero \<Longrightarrow>
     gcFields (fields' (fst (others c ss w))) = gcFields Fields_zero"
  by (induction c ss w rule: others.induct)
     (simp_all add: outputStats_config outputStats_gc OneOff_locked_def)

lemma OneOff_fst:
  "fst (OneOff c rt ss w) =
     fields' (fst (others (fst (outputStats c rt w)) ss (snd (outputStats c rt w))))"
  by (simp add: OneOff_def OneOff_locked_def case_prod_beta)

lemma OneOff_alone:
  "OneOff c rt [] w =
     (fields' (fst (outputStats c rt w)),
      (fst (outputStats c rt w))\<lparr>fields' := Fields_zero\<rparr>,
      snd (outputStats c rt w))"
  by (simp add: OneOff_def OneOff_locked_def case_prod_beta)

text \<open>
  With another caller's two critical sections in between, the value returned is
  not the snapshot of the call's own cycle: here it is the zero value, although
  every category is enabled.
\<close>

lemma OneOff_between_example:
  "fst (OneOff (New None) runtime0 [Cycle runtime1, ReadReset] ()) = Fields_zero"
  by (simp add: OneOff_fst OneOff_locked_def)

lemma OneOff_config:
  "EnableCPU (fst (snd (OneOff c rt ss w))) = EnableCPU c"
  "EnableMem (fst (snd (OneOff c rt ss w))) = EnableMem c"
  "EnableGC (fst (snd (OneOff c rt ss w))) = EnableGC c"
  by (simp_all add: OneOff_def OneOff_locked_def case_prod_beta others_config outputStats_config)

lemma New_sint: "sint (PauseDur (New f)) = 10000000000"
  by (simp add: New_def Second_def)

lemma ranOnce_eq: "ranOnce = fst (outputStats ((New None)\<lparr>Done := Some 0\<rparr>) runtime0 ())"
  by (simp add: ranOnce_def Run_def case_prod_beta outputStats_config New_sint)

lemma ranOnce_flags: "EnableCPU ranOnce" "EnableMem ranOnce" "EnableGC ranOnce"
  by (simp_all add: ranOnce_eq outputStats_config) (simp_all add: New_def)

lemma ranOnce_cpu: "cpuFields (fields' ranOnce) = [5, 1]"
  by (simp add: ranOnce_eq outputStats_cpu cpuRead_def runtime_simps) (simp add: New_def)

lemma ranOnce_mem: "memFields (fields' ranOnce) = [1,2,3,4,5,6,7,8,9,10,11,12,13,14,15,16,17,18,19]"
  by (simp add: ranOnce_eq outputStats_mem) (simp add: New_def memRead_def runtime0_def memStats0_def)

text \<open>The loop of \<open>Run\<close> as a sequence of cycles, and when it returns.\<close>

lemma ticks_received_Done:
  "Done c' = Done c \<Longrightarrow> ticks_received c' es = ticks_received c es"
  by (induction c es rule: ticks_received.induct) simp_all

lemma run_loop_cycles:
  "run_state (run_loop c es w) = cycles c (ticks_received c es) w"
proof (induction c es w rule: run_loop.induct)
  case (3 c rt es w)
  have "ticks_received (fst (outputStats c rt w)) es = ticks_received c es"
    by (rule ticks_received_Done) (simp add: outputStats_config)
  with 3 show ?case by simp
qed simp_all

lemma run_loop_Returned:
  "(\<exists>s. run_loop c es w = Returned s) \<longleftrightarrow> Done c \<noteq> None \<and> DoneClosed \<in> set es"
  by (induction c es w rule: run_loop.induct) (simp_all add: outputStats_config)

lemma run_loop_not_Panicked: "run_loop c es w \<noteq> Panicked s"
  by (induction c es w rule: run_loop.induct) simp_all

lemma Run_unfold:
  "Run c rt es w =
     (if sint (PauseDur c) \<le> 0 then Panicked (outputStats c rt w)
      else run_loop (fst (outputStats c rt w)) es (snd (outputStats c rt w)))"
  by (simp add: Run_def case_prod_beta outputStats_config)

lemma keepAll_cycles:
  "fieldsFunc c = keepAll \<Longrightarrow> length (snd (cycles c rts w)) = length w + length rts"
  by (induction c rts w rule: cycles.induct)
     (simp_all add: outputStats_config outputStats_snd keepAll_def)

text \<open>\<open>ToMap\<close> against the declaration of \<open>Fields\<close>.\<close>

lemma Fields_tags_distinct: "distinct (map fst Fields_tags)"
  by (simp add: Fields_tags_def)

lemma ToMap_tags: "ToMap f = map_of (map (\<lambda>(name, get). (name, get f)) Fields_tags)"
  by (simp add: ToMap_def Fields_tags_def)

lemma ToMap_entry:
  assumes "(name, get) \<in> set Fields_tags"
  shows "ToMap f name = Some (get f)"
proof -
  have d: "distinct (map fst (map (\<lambda>(name, get). (name, get f)) Fields_tags))"
    using Fields_tags_distinct by (simp add: case_prod_beta comp_def)
  have "(name, get f) \<in> set (map (\<lambda>(name, get). (name, get f)) Fields_tags)"
    using assms by force
  with d show ?thesis
    unfolding ToMap_tags by simp
qed

lemma ToMap_dom: "dom (ToMap f) = set (map fst Fields_tags)"
  unfolding ToMap_tags by (simp add: dom_map_of_conv_image_fst image_image case_prod_beta)

lemma ToMap_inj:
  assumes "ToMap f = ToMap g"
  shows "f = g"
proof -
  have "get f = get g" if "(name, get) \<in> set Fields_tags" for name get
    using ToMap_entry [OF that, of f] ToMap_entry [OF that, of g] assms by simp
  then have e: "\<forall>(name, get) \<in> set Fields_tags. get f = get g"
    by blast
  have "cpuFields f = cpuFields g" "memFields f = memFields g" "gcFields f = gcFields g"
    using e by (simp_all add: Fields_tags_def cpuFields_def memFields_def gcFields_def)
  then show ?thesis by (rule Fields_eqI)
qed

subsection \<open>The claims\<close>

text \<open>
  Claim C7. For every consumer argument, \<open>New\<close> returns a collector whose interval
  is 10 seconds (ten thousand million nanoseconds) and whose three category flags
  are all true; a supplied consumer is stored as it is, and for a nil argument the
  stored consumer is the function that leaves the world as it was, whatever snapshot
  it is given, so that a collection cycle of such a collector calls it and changes
  nothing outside the collector.
\<close>

theorem New_defaults:
  "PauseDur (New f) = 10 * Second \<and> unat (PauseDur (New f)) = 10000000000
   \<and> EnableCPU (New f) \<and> EnableMem (New f) \<and> EnableGC (New f)
   \<and> fieldsFunc (New (Some g)) = g
   \<and> (\<forall>x w. fieldsFunc (New None) x w = w)
   \<and> snd (outputStats (New None) rt w) = w"
  by (simp add: outputStats_snd) (simp add: New_def Second_def)

text \<open>
  Claim C3. When all three category flags are false, one collection cycle leaves
  every field of the snapshot as it was before the cycle, whatever the snapshot
  held and whatever the runtime reports; indeed the whole collector is unchanged.
\<close>

theorem outputStats_all_disabled:
  assumes "\<not> EnableCPU c" "\<not> EnableMem c" "\<not> EnableGC c"
  shows "fields' (fst (outputStats c rt w)) = fields' c \<and> fst (outputStats c rt w) = c"
  using assms by (simp add: outputStats_def Let_def)

theorem outputStats_all_disabled_witness:
  "\<not> EnableCPU ((fst (outputStats (New None) runtime0 ()))\<lparr>EnableCPU := False, EnableMem := False, EnableGC := False\<rparr>)
   \<and> \<not> EnableMem ((fst (outputStats (New None) runtime0 ()))\<lparr>EnableCPU := False, EnableMem := False, EnableGC := False\<rparr>)
   \<and> \<not> EnableGC ((fst (outputStats (New None) runtime0 ()))\<lparr>EnableCPU := False, EnableMem := False, EnableGC := False\<rparr>)
   \<and> NumGoroutine (fields' (fst (outputStats
        ((fst (outputStats (New None) runtime0 ()))\<lparr>EnableCPU := False, EnableMem := False, EnableGC := False\<rparr>)
        runtime1 ()))) = 5"
  using outputStats_all_disabled
    [of "(fst (outputStats (New None) runtime0 ()))\<lparr>EnableCPU := False, EnableMem := False, EnableGC := False\<rparr>"
        runtime1 "()"]
  by (simp add: outputStats_def outputCPUStats_def outputMemStats_def outputGCStats_def New_def Let_def runtime_simps)

text \<open>
  Claim C6. After a collection cycle the GC fields hold the values read from the
  memory statistics exactly when the memory flag and the GC flag are both true,
  and otherwise hold what they held before the cycle; when the memory flag is
  false, the snapshot after the cycle does not depend on the GC flag.
\<close>

theorem outputStats_gc_iff:
  "gcFields (fields' (fst (outputStats c rt w))) =
     (if EnableMem c \<and> EnableGC c then gcRead (runtime_ReadMemStats rt)
      else gcFields (fields' c))
   \<and> (\<not> EnableMem c \<longrightarrow>
        fields' (fst (outputStats (c\<lparr>EnableGC := b\<rparr>) rt w)) = fields' (fst (outputStats c rt w)))"
  by (simp add: outputStats_gc) (simp add: outputStats_def outputCPUStats_def Let_def)

theorem outputStats_gc_iff_witness:
  "\<not> EnableMem ((New None)\<lparr>EnableMem := False\<rparr>)
   \<and> gcFields (fields' (fst (outputStats ((New None)\<lparr>EnableMem := False\<rparr>) runtime1 ())))
       = gcFields Fields_zero
   \<and> fields' (fst (outputStats ((New None)\<lparr>EnableMem := False, EnableGC := False\<rparr>) runtime1 ()))
       = fields' (fst (outputStats ((New None)\<lparr>EnableMem := False\<rparr>) runtime1 ()))"
  using outputStats_gc_iff [of "(New None)\<lparr>EnableMem := False\<rparr>" runtime1 "()" False]
  by (simp add: New_def)

text \<open>
  Claim C4. The index \<open>(count + 255) mod 256\<close>, as the code computes it in
  \<open>uint32\<close>, is 255 for count 0 and 43 for count 300; for every count it equals
  \<open>(count + 255) mod 256\<close> on the natural numbers and lies below 256; and whenever
  the runtime completes a collection (storing the pause in slot \<open>NumGC mod 256\<close>
  and incrementing the counter, wrap-around of the counter included), the index of
  the new count is the slot just written, so \<open>outputGCStats\<close> stores that pause.
\<close>

theorem pauseIndex_recent:
  "pauseIndex 0 = 255 \<and> pauseIndex 300 = 43
   \<and> pauseIndex n = (unat n + 255) mod 256
   \<and> pauseIndex n < 256
   \<and> pauseIndex (MemStats.NumGC (runtime_gcDone m p)) = unat (MemStats.NumGC m) mod 256
   \<and> MemStats.PauseNs (runtime_gcDone m p) (pauseIndex (MemStats.NumGC (runtime_gcDone m p))) = p
   \<and> PauseNs (fields' (outputGCStats c (runtime_gcDone m p))) = p"
proof -
  have idx: "pauseIndex k = (unat k + 255) mod 256" for k
  proof -
    have "pauseIndex k = unat (k + 255) mod 256"
      by (simp add: pauseIndex_def unat_mod)
    also have "unat (k + 255) = (unat k + 255) mod 2 ^ 32"
      by (simp add: unat_word_ariths)
    also have "(unat k + 255) mod 2 ^ 32 mod 256 = (unat k + 255) mod 256"
      by (rule mod_mod_cancel) simp
    finally show ?thesis .
  qed
  have suc: "pauseIndex (k + 1) = unat k mod 256" for k
  proof -
    have "pauseIndex (k + 1) = (unat (k + 1) + 255) mod 256" by (rule idx)
    also have "unat (k + 1) = (unat k + 1) mod 2 ^ 32"
      by (simp add: unat_word_ariths)
    also have "((unat k + 1) mod 2 ^ 32 + 255) mod 256 = ((unat k + 1) mod 2 ^ 32 mod 256 + 255) mod 256"
      by (simp add: mod_add_left_eq)
    also have "(unat k + 1) mod 2 ^ 32 mod 256 = (unat k + 1) mod 256"
      by (rule mod_mod_cancel) simp
    also have "((unat k + 1) mod 256 + 255) mod 256 = (unat k + 256) mod 256"
      by (simp add: mod_add_left_eq)
    also have "\<dots> = unat k mod 256" by simp
    finally show ?thesis .
  qed
  have c0: "pauseIndex 0 = 255" by (simp add: idx)
  have c300: "pauseIndex 300 = 43" by (simp add: idx)
  have lt: "pauseIndex n < 256" by (simp add: idx)
  have w: "unat (MemStats.NumGC m mod 256) = unat (MemStats.NumGC m) mod 256"
    by (simp add: unat_mod)
  have g1: "pauseIndex (MemStats.NumGC (runtime_gcDone m p)) = unat (MemStats.NumGC m) mod 256"
    by (simp add: runtime_gcDone_def suc)
  have g2: "MemStats.PauseNs (runtime_gcDone m p) (pauseIndex (MemStats.NumGC (runtime_gcDone m p))) = p"
    unfolding g1 by (simp add: runtime_gcDone_def w)
  have g3: "PauseNs (fields' (outputGCStats c (runtime_gcDone m p))) = p"
    by (simp add: outputGCStats_def g2)
  from c0 c300 idx lt g1 g2 g3 show ?thesis by blast
qed

text \<open>
  Claim C2. A tick of \<open>Run\<close> is one collection cycle, and a cycle leaves the fields
  of every disabled category as they were before it; so does a whole run of
  \<open>Run\<close>, over any schedule of ticks: the snapshot is never reset by the loop.
  After \<open>OneOff\<close>, whatever other goroutines did between its two critical
  sections, the internal snapshot is the zero-value snapshot.
\<close>

theorem Run_keeps_OneOff_resets:
  "(\<not> EnableCPU c \<longrightarrow>
      cpuFields (fields' (fst (outputStats c rt w))) = cpuFields (fields' c)
      \<and> cpuFields (fields' (fst (run_state (Run c rt es w)))) = cpuFields (fields' c))
   \<and> (\<not> EnableMem c \<longrightarrow>
      memFields (fields' (fst (outputStats c rt w))) = memFields (fields' c)
      \<and> memFields (fields' (fst (run_state (Run c rt es w)))) = memFields (fields' c))
   \<and> (\<not> (EnableMem c \<and> EnableGC c) \<longrightarrow>
      gcFields (fields' (fst (outputStats c rt w))) = gcFields (fields' c)
      \<and> gcFields (fields' (fst (run_state (Run c rt es w)))) = gcFields (fields' c))
   \<and> fields' (fst (snd (OneOff c rt ss w))) = Fields_zero"
proof -
  have cpu: "cpuFields (fields' (fst (run_state (Run c rt es w)))) = cpuFields (fields' c)"
    if "\<not> EnableCPU c"
    using that run_loop_cpu [of "fst (outputStats c rt w)" es "snd (outputStats c rt w)"]
    by (simp add: Run_state outputStats_config outputStats_cpu)
  have mem: "memFields (fields' (fst (run_state (Run c rt es w)))) = memFields (fields' c)"
    if "\<not> EnableMem c"
    using that run_loop_mem [of "fst (outputStats c rt w)" es "snd (outputStats c rt w)"]
    by (simp add: Run_state outputStats_config outputStats_mem)
  have gc: "gcFields (fields' (fst (run_state (Run c rt es w)))) = gcFields (fields' c)"
    if "\<not> (EnableMem c \<and> EnableGC c)"
    using that run_loop_gc [of "fst (outputStats c rt w)" es "snd (outputStats c rt w)"]
    by (auto simp add: Run_state outputStats_config outputStats_gc)
  have one: "fields' (fst (snd (OneOff c rt ss w))) = Fields_zero"
    by (simp add: OneOff_def OneOff_locked_def case_prod_beta)
  show ?thesis
    using cpu mem gc one by (simp add: outputStats_cpu outputStats_mem outputStats_gc)
qed

theorem Run_keeps_OneOff_resets_witness:
  "\<not> EnableCPU (ranOnce\<lparr>EnableCPU := False, EnableMem := False\<rparr>)
   \<and> \<not> EnableMem (ranOnce\<lparr>EnableCPU := False, EnableMem := False\<rparr>)
   \<and> \<not> (EnableMem (ranOnce\<lparr>EnableCPU := False, EnableMem := False\<rparr>)
          \<and> EnableGC (ranOnce\<lparr>EnableCPU := False, EnableMem := False\<rparr>))
   \<and> cpuFields (fields' (fst (run_state
         (Run (ranOnce\<lparr>EnableCPU := False, EnableMem := False\<rparr>) runtime1
            [TickFired runtime1, TickFired runtime1] ())))) = [5, 1]
   \<and> memFields (fields' (fst (run_state
         (Run (ranOnce\<lparr>EnableCPU := False, EnableMem := False\<rparr>) runtime1
            [TickFired runtime1, TickFired runtime1] ())))) =
        [1,2,3,4,5,6,7,8,9,10,11,12,13,14,15,16,17,18,19]
   \<and> fields' (fst (snd (OneOff (ranOnce\<lparr>EnableCPU := False, EnableMem := False\<rparr>) runtime1
         [Cycle runtime0] ()))) = Fields_zero"
  using Run_keeps_OneOff_resets
    [where c = "ranOnce\<lparr>EnableCPU := False, EnableMem := False\<rparr>" and rt = runtime1
       and w = "()" and es = "[TickFired runtime1, TickFired runtime1]"
       and ss = "[Cycle runtime0]"]
  by (simp add: ranOnce_cpu ranOnce_mem)

text \<open>
  Claim C1 fails as it is stated: a collector whose \<open>Run\<close> has made a cycle with the
  CPU category enabled holds five goroutines in its snapshot; with that category
  then disabled, \<open>OneOff\<close>, called with no other goroutine at work, returns the
  five, not the zero value.
\<close>

theorem OneOff_stale_counterexample:
  "\<not> EnableCPU (ranOnce\<lparr>EnableCPU := False\<rparr>)
   \<and> NumGoroutine (fst (OneOff (ranOnce\<lparr>EnableCPU := False\<rparr>) runtime1 [] ())) = 5
   \<and> NumGoroutine Fields_zero = 0"
proof -
  have "cpuFields (fst (OneOff (ranOnce\<lparr>EnableCPU := False\<rparr>) runtime1 [] ())) = [5, 1]"
    by (simp add: OneOff_alone outputStats_cpu ranOnce_cpu)
  then have "NumGoroutine (fst (OneOff (ranOnce\<lparr>EnableCPU := False\<rparr>) runtime1 [] ())) = 5"
    by (simp add: cpuFields_def)
  then show ?thesis by (simp add: Fields_zero_def)
qed

text \<open>
  Claim C1, as amended. When \<open>OneOff\<close> returns, the internal snapshot is the
  zero-value snapshot. The fields of a disabled category are zero in the snapshot
  returned whenever they were zero in the internal snapshot before the call (as
  they are after \<open>New\<close> and after every \<open>OneOff\<close>), whatever cycles and \<open>OneOff\<close>
  calls of other goroutines come between the two critical sections of the call.
\<close>

theorem OneOff_zero_after_disabled_kept_zero:
  "fields' (fst (snd (OneOff c rt ss w))) = Fields_zero
   \<and> (\<not> EnableCPU c \<longrightarrow> cpuFields (fields' c) = cpuFields Fields_zero \<longrightarrow>
        cpuFields (fst (OneOff c rt ss w)) = cpuFields Fields_zero)
   \<and> (\<not> EnableMem c \<longrightarrow> memFields (fields' c) = memFields Fields_zero \<longrightarrow>
        memFields (fst (OneOff c rt ss w)) = memFields Fields_zero)
   \<and> (\<not> (EnableMem c \<and> EnableGC c) \<longrightarrow> gcFields (fields' c) = gcFields Fields_zero \<longrightarrow>
        gcFields (fst (OneOff c rt ss w)) = gcFields Fields_zero)"
proof -
  let ?c1 = "fst (outputStats c rt w)" and ?w1 = "snd (outputStats c rt w)"
  have z: "fields' (fst (snd (OneOff c rt ss w))) = Fields_zero"
    by (simp add: OneOff_def OneOff_locked_def case_prod_beta)
  have cpu: "cpuFields (fst (OneOff c rt ss w)) = cpuFields Fields_zero"
    if "\<not> EnableCPU c" "cpuFields (fields' c) = cpuFields Fields_zero"
    unfolding OneOff_fst
    by (rule others_cpu_zero) (simp_all add: that outputStats_config outputStats_cpu)
  have mem: "memFields (fst (OneOff c rt ss w)) = memFields Fields_zero"
    if "\<not> EnableMem c" "memFields (fields' c) = memFields Fields_zero"
    unfolding OneOff_fst
    by (rule others_mem_zero) (simp_all add: that outputStats_config outputStats_mem)
  have gc: "gcFields (fst (OneOff c rt ss w)) = gcFields Fields_zero"
    if "\<not> (EnableMem c \<and> EnableGC c)" "gcFields (fields' c) = gcFields Fields_zero"
    unfolding OneOff_fst
    by (rule others_gc_zero) (use that in \<open>auto simp add: outputStats_config outputStats_gc\<close>)
  from z cpu mem gc show ?thesis by blast
qed

theorem OneOff_zero_after_disabled_kept_zero_witness:
  "\<not> EnableCPU ((fst (snd (OneOff ranOnce runtime0 [] ())))\<lparr>EnableCPU := False, EnableMem := False\<rparr>)
   \<and> \<not> EnableMem ((fst (snd (OneOff ranOnce runtime0 [] ())))\<lparr>EnableCPU := False, EnableMem := False\<rparr>)
   \<and> cpuFields (fields'
         ((fst (snd (OneOff ranOnce runtime0 [] ())))\<lparr>EnableCPU := False, EnableMem := False\<rparr>))
       = cpuFields Fields_zero
   \<and> memFields (fields'
         ((fst (snd (OneOff ranOnce runtime0 [] ())))\<lparr>EnableCPU := False, EnableMem := False\<rparr>))
       = memFields Fields_zero
   \<and> gcFields (fields'
         ((fst (snd (OneOff ranOnce runtime0 [] ())))\<lparr>EnableCPU := False, EnableMem := False\<rparr>))
       = gcFields Fields_zero
   \<and> cpuFields (fst (OneOff
         ((fst (snd (OneOff ranOnce runtime0 [] ())))\<lparr>EnableCPU := False, EnableMem := False\<rparr>)
         runtime1 [Cycle runtime0, ReadReset, Cycle runtime1] ())) = cpuFields Fields_zero
   \<and> memFields (fst (OneOff
         ((fst (snd (OneOff ranOnce runtime0 [] ())))\<lparr>EnableCPU := False, EnableMem := False\<rparr>)
         runtime1 [Cycle runtime0, ReadReset, Cycle runtime1] ())) = memFields Fields_zero
   \<and> gcFields (fst (OneOff
         ((fst (snd (OneOff ranOnce runtime0 [] ())))\<lparr>EnableCPU := False, EnableMem := False\<rparr>)
         runtime1 [Cycle runtime0, ReadReset, Cycle runtime1] ())) = gcFields Fields_zero
   \<and> fields' (fst (snd (OneOff
         ((fst (snd (OneOff ranOnce runtime0 [] ())))\<lparr>EnableCPU := False, EnableMem := False\<rparr>)
         runtime1 [Cycle runtime0, ReadReset, Cycle runtime1] ()))) = Fields_zero"
proof -
  let ?c = "(fst (snd (OneOff ranOnce runtime0 [] ())))\<lparr>EnableCPU := False, EnableMem := False\<rparr>"
  have z: "fields' ?c = Fields_zero"
    by (simp add: OneOff_alone)
  have h: "\<not> EnableCPU ?c" "\<not> EnableMem ?c"
    by simp_all
  from OneOff_zero_after_disabled_kept_zero
    [where c = ?c and rt = runtime1 and w = "()"
       and ss = "[Cycle runtime0, ReadReset, Cycle runtime1]"]
  show ?thesis
    using h by (simp add: z)
qed

text \<open>
  Claim C5. With a positive interval: \<open>Run\<close> makes its first cycle before it
  receives anything (on the empty schedule it has made exactly that cycle and is
  waiting); on any schedule its state is that of one cycle for the start followed
  by one cycle for each tick received before the stop; it returns exactly when a
  \<open>Done\<close> channel is configured and its closing is received; with \<open>Done\<close> nil it
  returns on no schedule; and it does not panic.
\<close>

theorem Run_cycles:
  assumes "0 < sint (PauseDur c)"
  shows "Run c rt [] w = Waiting (outputStats c rt w)
    \<and> run_state (Run c rt es w) = cycles c (rt # ticks_received c es) w
    \<and> ((\<exists>s. Run c rt es w = Returned s) \<longleftrightarrow> Done c \<noteq> None \<and> DoneClosed \<in> set es)
    \<and> (Done c = None \<longrightarrow> (\<forall>s. Run c rt es w \<noteq> Returned s))
    \<and> (\<forall>s. Run c rt es w \<noteq> Panicked s)"
proof -
  let ?c1 = "fst (outputStats c rt w)" and ?w1 = "snd (outputStats c rt w)"
  have R: "Run c rt es w = run_loop ?c1 es ?w1" for es
    using assms by (simp add: Run_unfold)
  have a: "Run c rt [] w = Waiting (outputStats c rt w)"
    by (simp add: R)
  have "ticks_received ?c1 es = ticks_received c es"
    by (rule ticks_received_Done) (simp add: outputStats_config)
  then have b: "run_state (Run c rt es w) = cycles c (rt # ticks_received c es) w"
    by (simp add: R run_loop_cycles)
  have d: "(\<exists>s. Run c rt es w = Returned s) \<longleftrightarrow> Done c \<noteq> None \<and> DoneClosed \<in> set es"
    using run_loop_Returned [of ?c1 es ?w1] by (simp add: R outputStats_config)
  have e: "\<forall>s. Run c rt es w \<noteq> Panicked s"
    by (simp add: R run_loop_not_Panicked)
  from a b d e show ?thesis by blast
qed

theorem Run_cycles_witness:
  "0 < sint (PauseDur ((New (Some keepAll))\<lparr>Done := Some 0\<rparr>))
   \<and> 0 < sint (PauseDur (New (Some keepAll)))
   \<and> Done (New (Some keepAll)) = None
   \<and> length (snd (run_state (Run ((New (Some keepAll))\<lparr>Done := Some 0\<rparr>) runtime0
        [TickFired runtime1, TickFired runtime1, DoneClosed, TickFired runtime0] []))) = 3
   \<and> (\<exists>s. Run ((New (Some keepAll))\<lparr>Done := Some 0\<rparr>) runtime0
        [TickFired runtime1, TickFired runtime1, DoneClosed, TickFired runtime0] [] = Returned s)
   \<and> length (snd (run_state (Run (New (Some keepAll)) runtime0
        [TickFired runtime1, TickFired runtime1, DoneClosed, TickFired runtime0] []))) = 4
   \<and> (\<forall>s. Run (New (Some keepAll)) runtime0
        [TickFired runtime1, TickFired runtime1, DoneClosed, TickFired runtime0] [] \<noteq> Returned s)"
proof -
  let ?es = "[TickFired runtime1, TickFired runtime1, DoneClosed, TickFired runtime0]"
  let ?cA = "(New (Some keepAll))\<lparr>Done := Some 0\<rparr>"
  let ?cB = "New (Some keepAll) :: Fields list Collector"
  have p: "0 < sint (PauseDur ?cA)" "0 < sint (PauseDur ?cB)"
    by (simp_all add: New_sint)
  have f: "fieldsFunc ?cA = keepAll" "fieldsFunc ?cB = keepAll"
    by (simp_all add: New_def)
  have d: "Done ?cA = Some 0" "Done ?cB = None"
    by (simp_all add: New_def)
  have t: "ticks_received ?cA ?es = [runtime1, runtime1]"
    "ticks_received ?cB ?es = [runtime1, runtime1, runtime0]"
    by (simp_all add: d)
  note A = Run_cycles [OF p(1), of runtime0 "[]" ?es]
  note B = Run_cycles [OF p(2), of runtime0 "[]" ?es]
  have lA: "length (snd (run_state (Run ?cA runtime0 ?es []))) = 3"
    using A by (simp only: t keepAll_cycles [OF f(1)]) simp
  have lB: "length (snd (run_state (Run ?cB runtime0 ?es []))) = 4"
    using B by (simp only: t keepAll_cycles [OF f(2)]) simp
  have rA: "\<exists>s. Run ?cA runtime0 ?es [] = Returned s"
    using A d(1) by simp
  have rB: "\<forall>s. Run ?cB runtime0 ?es [] \<noteq> Returned s"
    using B d(2) by blast
  from p d(2) lA rA lB rB show ?thesis by blast
qed

text \<open>
  Claim C8 fails as it is stated: an interval of zero assigned after \<open>New\<close> is
  stored as it is; \<open>Run\<close> starts with it, makes its first cycle (the snapshot holds
  the five goroutines) and then panics.
\<close>

theorem Run_zero_interval_counterexample:
  "sint (PauseDur ((New None)\<lparr>PauseDur := 0\<rparr>)) = 0
   \<and> Run ((New None)\<lparr>PauseDur := 0\<rparr>) runtime0 [TickFired runtime1, DoneClosed] ()
       = Panicked (outputStats ((New None)\<lparr>PauseDur := 0\<rparr>) runtime0 ())
   \<and> cpuFields (fields' (fst (outputStats ((New None)\<lparr>PauseDur := 0\<rparr>) runtime0 ()))) = [5, 1]"
  by (simp add: Run_unfold outputStats_cpu cpuRead_def runtime_simps) (simp add: New_def)

text \<open>
  Claim C8, as amended. \<open>New\<close> always sets the interval to 10 seconds; an interval
  assigned afterwards is stored unchecked; \<open>Run\<close> with a zero or negative interval
  makes its first cycle and then panics, on every schedule, so the loop makes no
  tick cycle with such an interval; with a positive interval \<open>Run\<close> never panics.
\<close>

theorem Run_nonpositive_interval:
  "sint (PauseDur (New f)) = 10000000000
   \<and> PauseDur (c\<lparr>PauseDur := d\<rparr>) = d
   \<and> (sint (PauseDur c) \<le> 0 \<longrightarrow> Run c rt es w = Panicked (outputStats c rt w))
   \<and> (0 < sint (PauseDur c) \<longrightarrow> (\<forall>s. Run c rt es w \<noteq> Panicked s))"
  by (simp add: New_sint Run_unfold run_loop_not_Panicked)

theorem Run_nonpositive_interval_witness:
  "sint (PauseDur ((New None)\<lparr>PauseDur := - 1\<rparr>)) \<le> 0
   \<and> Run ((New None)\<lparr>PauseDur := - 1\<rparr>) runtime0 [TickFired runtime1] ()
       = Panicked (outputStats ((New None)\<lparr>PauseDur := - 1\<rparr>) runtime0 ())
   \<and> 0 < sint (PauseDur (New None))
   \<and> (\<forall>s. Run (New None) runtime0 [TickFired runtime1] () \<noteq> Panicked s)"
  using Run_nonpositive_interval
      [where c = "(New None)\<lparr>PauseDur := - 1\<rparr>" and rt = runtime0
         and es = "[TickFired runtime1]" and w = "()"]
    Run_nonpositive_interval
      [where c = "New None" and rt = runtime0 and es = "[TickFired runtime1]" and w = "()"]
  by (simp add: New_sint)

text \<open>
  Claim C10. In a collection cycle the world after the cycle is the consumer
  applied once to the snapshot the cycle produced and to the world before; a
  consumer that keeps what it is handed has gained exactly that one snapshot.
  The snapshot after the cycle is the same whatever the consumer is, and the
  consumer stays installed. With the CPU and memory categories disabled (the GC
  flag then has no effect) the consumer is still called, with the unchanged snapshot.
\<close>

theorem outputStats_calls_consumer_once:
  "snd (outputStats c rt w) = fieldsFunc c (fields' (fst (outputStats c rt w))) w
   \<and> fields' (fst (outputStats (c\<lparr>fieldsFunc := g\<rparr>) rt w)) = fields' (fst (outputStats c rt w))
   \<and> fieldsFunc (fst (outputStats c rt w)) = fieldsFunc c
   \<and> snd (outputStats (k\<lparr>fieldsFunc := keepAll\<rparr>) rt log)
       = log @ [fields' (fst (outputStats (k\<lparr>fieldsFunc := keepAll\<rparr>) rt log))]
   \<and> (\<not> EnableCPU c \<and> \<not> EnableMem c \<longrightarrow> snd (outputStats c rt w) = fieldsFunc c (fields' c) w)"
proof -
  have a: "snd (outputStats c rt w) = fieldsFunc c (fields' (fst (outputStats c rt w))) w"
    by (rule outputStats_snd)
  have b: "fields' (fst (outputStats (c\<lparr>fieldsFunc := g\<rparr>) rt w)) = fields' (fst (outputStats c rt w))"
    by (simp add: outputStats_def outputCPUStats_def outputMemStats_def outputGCStats_def Let_def)
  have k: "snd (outputStats (k\<lparr>fieldsFunc := keepAll\<rparr>) rt log)
       = log @ [fields' (fst (outputStats (k\<lparr>fieldsFunc := keepAll\<rparr>) rt log))]"
    by (simp add: outputStats_snd keepAll_def)
  have e: "snd (outputStats c rt w) = fieldsFunc c (fields' c) w" if "\<not> EnableCPU c" "\<not> EnableMem c"
    using that by (simp add: outputStats_def Let_def)
  from a b k e show ?thesis by (simp add: outputStats_config)
qed

theorem outputStats_calls_consumer_once_witness:
  "\<not> EnableCPU ((New (Some keepAll))\<lparr>EnableCPU := False, EnableMem := False\<rparr>)
   \<and> \<not> EnableMem ((New (Some keepAll))\<lparr>EnableCPU := False, EnableMem := False\<rparr>)
   \<and> snd (outputStats ((New (Some keepAll))\<lparr>EnableCPU := False, EnableMem := False\<rparr>)
          runtime1 []) = [Fields_zero]"
proof -
  let ?c = "(New (Some keepAll))\<lparr>EnableCPU := False, EnableMem := False\<rparr>"
  have h: "\<not> EnableCPU ?c" "\<not> EnableMem ?c"
    by (simp_all add: New_def)
  have v: "fieldsFunc ?c (fields' ?c) [] = [Fields_zero]"
    by (simp add: New_def keepAll_def)
  from outputStats_calls_consumer_once [where c = ?c and rt = runtime1 and w = "[]"]
  have "\<not> EnableCPU ?c \<and> \<not> EnableMem ?c \<longrightarrow>
          snd (outputStats ?c runtime1 []) = fieldsFunc ?c (fields' ?c) []"
    by blast
  with h v show ?thesis by simp
qed

text \<open>
  Claim C9. The map produced by \<open>ToMap\<close> is the table of the declaration of
  \<open>Fields\<close> read at the snapshot: it has exactly one entry for each of the 28
  fields, keyed by the name in the field's tag (the 28 names are distinct) and
  holding the field's value at its declared type, the GC CPU fraction as the
  \<open>float64\<close> it is; there is no other key. Nothing is lost on the way: two
  snapshots with the same map are the same snapshot, so the snapshot can be read
  back from the map.
\<close>

theorem ToMap_exact:
  "ToMap f = map_of (map (\<lambda>(name, get). (name, get f)) Fields_tags)
   \<and> length Fields_tags = 28
   \<and> distinct (map fst Fields_tags)
   \<and> dom (ToMap f) = set (map fst Fields_tags)
   \<and> card (dom (ToMap f)) = 28
   \<and> (\<forall>(name, get) \<in> set Fields_tags. ToMap f name = Some (get f))
   \<and> ToMap f ''mem.gc.cpu_fraction'' = Some (Float64 (GCCPUFraction f))
   \<and> (ToMap f = ToMap g \<longrightarrow> f = g)"
proof -
  have l: "length Fields_tags = 28"
    by (simp add: Fields_tags_def)
  have c: "card (dom (ToMap f)) = 28"
    using distinct_card [OF Fields_tags_distinct] l by (simp add: ToMap_dom)
  have e: "\<forall>(name, get) \<in> set Fields_tags. ToMap f name = Some (get f)"
    using ToMap_entry by blast
  have g: "ToMap f ''mem.gc.cpu_fraction'' = Some (Float64 (GCCPUFraction f))"
    by (rule ToMap_entry) (simp add: Fields_tags_def)
  from ToMap_tags [of f] l Fields_tags_distinct ToMap_dom [of f] c e g ToMap_inj [of f g]
  show ?thesis by blast
qed

theorem ToMap_exact_witness:
  "ToMap (fields' ranOnce) ''cpu.goroutines'' = Some (Int64 5)
   \<and> ToMap (fields' ranOnce) ''mem.othersys'' = Some (Int64 19)
   \<and> ToMap (fields' ranOnce) ''cpu.nothing'' = None
   \<and> ToMap (fields' ranOnce) \<noteq> ToMap Fields_zero
   \<and> ToMap (fst (OneOff (New None) runtime0 [] ())) = ToMap (fields' ranOnce)
   \<and> fst (OneOff (New None) runtime0 [] ()) = fields' ranOnce"
proof -
  let ?f = "fst (OneOff (New None) runtime0 [] ())"
  note T = ToMap_exact [of "fields' ranOnce" Fields_zero]
  note U = ToMap_exact [of ?f "fields' ranOnce"]
  have m1: "(''cpu.goroutines'', \<lambda>f. Int64 (NumGoroutine f)) \<in> set Fields_tags"
    and m2: "(''mem.othersys'', \<lambda>f. Int64 (OtherSys f)) \<in> set Fields_tags"
    by (simp_all add: Fields_tags_def)
  have n: "''cpu.nothing'' \<notin> set (map fst Fields_tags)"
    by (simp add: Fields_tags_def)
  have v: "NumGoroutine (fields' ranOnce) = 5" "OtherSys (fields' ranOnce) = 19"
    using ranOnce_cpu ranOnce_mem by (simp_all add: cpuFields_def memFields_def)
  have a: "ToMap (fields' ranOnce) ''cpu.goroutines'' = Some (Int64 5)"
    using T m1 v by fastforce
  have b: "ToMap (fields' ranOnce) ''mem.othersys'' = Some (Int64 19)"
    using T m2 v by fastforce
  have c: "ToMap (fields' ranOnce) ''cpu.nothing'' = None"
    using T n by (metis domIff)
  have "NumGoroutine (fields' ranOnce) \<noteq> NumGoroutine Fields_zero"
    by (simp add: v Fields_zero_def)
  then have "fields' ranOnce \<noteq> Fields_zero"
    by auto
  with T have d: "ToMap (fields' ranOnce) \<noteq> ToMap Fields_zero"
    by blast
  have "ToMap ?f k = ToMap (fields' ranOnce) k" for k
    by (simp add: ToMap_def OneOff_alone ranOnce_eq outputStats_def outputCPUStats_def
        outputMemStats_def outputGCStats_def New_def Let_def)
  then have e: "ToMap ?f = ToMap (fields' ranOnce)"
    by (rule ext)
  with U have "?f = fields' ranOnce"
    by blast
  with a b c d e show ?thesis by simp
qed

end
